theory Spec2Isabelle
  imports Complex_Main "HOL-Library.Char_ord" "HOL-Library.List_Lexorder"
begin

section \<open>JavaScript numbers\<close>

text \<open>
  The TypeScript sources compute on \<^verbatim>\<open>number\<close>, the 64-bit binary floating point format.
  A finite value is held as the real it stands for, beside the three special values
  \<^verbatim>\<open>Infinity\<close>, \<^verbatim>\<open>-Infinity\<close> and \<^verbatim>\<open>NaN\<close>. Every arithmetic operation rounds its exact result
  to the format, to nearest with ties to even: 53 significant bits, subnormal values below
  \<open>2 powr (- 1022)\<close> in steps of \<open>2 powr (- 1074)\<close>, so that a small result underflows to
  zero, and a result that rounds to \<open>2 powr 1024\<close> or beyond overflows to an infinity.
  The sign of zero is not kept: it would show only in a division by a negative zero, and
  the one division of the sources has a product of two square roots as its divisor.
\<close>

datatype jsnum = Num real | PInf | NInf | NaN

text \<open>
  Rounding of a real to the format. \<open>double_exponent\<close> is the binary exponent of the
  result, held at \<open>- 1022\<close> for the subnormal values; \<open>quantum\<close> is the distance between
  neighbouring values there; \<open>round_to_quantum\<close> is the nearest multiple of it, the even one
  at a tie. \<^verbatim>\<open>Math.sqrt\<close> is taken as correctly rounded, as the format's own square root is.
\<close>

definition round_half_even :: "real \<Rightarrow> int" where
  "round_half_even y =
     (let f = \<lfloor>y\<rfloor>; d = y - of_int f
      in if d < 1 / 2 then f else if 1 / 2 < d then f + 1 else if even f then f else f + 1)"

definition double_exponent :: "real \<Rightarrow> int" where
  "double_exponent x = max \<lfloor>log 2 \<bar>x\<bar>\<rfloor> (- 1022)"

definition quantum :: "real \<Rightarrow> real" where
  "quantum x = 2 powr (of_int (double_exponent x) - 52)"

definition round_to_quantum :: "real \<Rightarrow> real" where
  "round_to_quantum x = of_int (round_half_even (x / quantum x)) * quantum x"

definition double_overflow :: "real \<Rightarrow> bool" where
  "double_overflow r = (2 powr 1024 \<le> \<bar>r\<bar>)"

definition round_double :: "real \<Rightarrow> jsnum" where
  "round_double x =
     (if x = 0 then Num 0
      else
        let r = round_to_quantum x
        in if double_overflow r then (if r < 0 then NInf else PInf) else Num r)"

fun js_sign :: "jsnum \<Rightarrow> int" where
  "js_sign (Num r) = (if r < 0 then - 1 else if r = 0 then 0 else 1)"
| "js_sign PInf = 1"
| "js_sign NInf = - 1"
| "js_sign NaN = 0"

definition js_signed_inf :: "int \<Rightarrow> jsnum" where
  "js_signed_inf s = (if s = 0 then NaN else if 0 < s then PInf else NInf)"

fun js_add :: "jsnum \<Rightarrow> jsnum \<Rightarrow> jsnum" where
  "js_add NaN _ = NaN"
| "js_add _ NaN = NaN"
| "js_add (Num a) (Num b) = round_double (a + b)"
| "js_add PInf NInf = NaN"
| "js_add NInf PInf = NaN"
| "js_add PInf _ = PInf"
| "js_add _ PInf = PInf"
| "js_add NInf _ = NInf"
| "js_add _ NInf = NInf"

fun js_neg :: "jsnum \<Rightarrow> jsnum" where
  "js_neg (Num a) = Num (- a)"
| "js_neg PInf = NInf"
| "js_neg NInf = PInf"
| "js_neg NaN = NaN"

definition js_sub :: "jsnum \<Rightarrow> jsnum \<Rightarrow> jsnum" where
  "js_sub x y = js_add x (js_neg y)"

fun js_mul :: "jsnum \<Rightarrow> jsnum \<Rightarrow> jsnum" where
  "js_mul NaN _ = NaN"
| "js_mul _ NaN = NaN"
| "js_mul (Num a) (Num b) = round_double (a * b)"
| "js_mul x y = js_signed_inf (js_sign x * js_sign y)"

fun js_div :: "jsnum \<Rightarrow> jsnum \<Rightarrow> jsnum" where
  "js_div NaN _ = NaN"
| "js_div _ NaN = NaN"
| "js_div (Num a) (Num b) =
     (if b = 0 then js_signed_inf (js_sign (Num a)) else round_double (a / b))"
| "js_div (Num a) _ = Num 0"
| "js_div x (Num b) = (if b = 0 then x else js_signed_inf (js_sign x * js_sign (Num b)))"
| "js_div _ _ = NaN"

fun js_sqrt :: "jsnum \<Rightarrow> jsnum" where
  "js_sqrt (Num a) = (if a < 0 then NaN else round_double (sqrt a))"
| "js_sqrt PInf = PInf"
| "js_sqrt NInf = NaN"
| "js_sqrt NaN = NaN"

text \<open>The operators \<^verbatim>\<open>>\<close> and \<^verbatim>\<open><\<close>: every comparison with \<^verbatim>\<open>NaN\<close> is false.\<close>

fun js_gt :: "jsnum \<Rightarrow> jsnum \<Rightarrow> bool" where
  "js_gt NaN _ = False"
| "js_gt _ NaN = False"
| "js_gt (Num a) (Num b) = (b < a)"
| "js_gt PInf PInf = False"
| "js_gt PInf _ = True"
| "js_gt NInf _ = False"
| "js_gt _ NInf = True"
| "js_gt _ PInf = False"

definition js_ge :: "jsnum \<Rightarrow> jsnum \<Rightarrow> bool" where
  "js_ge x y = (x \<noteq> NaN \<and> y \<noteq> NaN \<and> \<not> js_gt y x)"

section \<open>Arrays\<close>

text \<open>
  \<^verbatim>\<open>b[i]\<close> on an array of numbers: an index past the end reads \<^verbatim>\<open>undefined\<close>, which the
  arithmetic operators convert to \<^verbatim>\<open>NaN\<close>.
\<close>

definition js_index :: "jsnum list \<Rightarrow> nat \<Rightarrow> jsnum" where
  "js_index b i = (if i < length b then b ! i else NaN)"

text \<open>
  \<^verbatim>\<open>Array.prototype.sort(cmp)\<close> is stable, and puts \<^verbatim>\<open>x\<close> after \<^verbatim>\<open>y\<close> when \<^verbatim>\<open>cmp(x, y) > 0\<close>;
  a comparator result of \<^verbatim>\<open>NaN\<close> counts as \<^verbatim>\<open>0\<close>. The model is the stable insertion sort.
\<close>

fun js_insort :: "('a \<Rightarrow> 'a \<Rightarrow> jsnum) \<Rightarrow> 'a \<Rightarrow> 'a list \<Rightarrow> 'a list" where
  "js_insort cmp x [] = [x]"
| "js_insort cmp x (y # ys) =
     (if js_gt (cmp x y) (Num 0) then y # js_insort cmp x ys else x # y # ys)"

definition js_sort :: "('a \<Rightarrow> 'a \<Rightarrow> jsnum) \<Rightarrow> 'a list \<Rightarrow> 'a list" where
  "js_sort cmp xs = foldr (js_insort cmp) xs []"

section \<open>Similarity search\<close>

text \<open>
  \<^verbatim>\<open>cosineSimilarity(a, b)\<close>: the dot product runs over the indices of \<^verbatim>\<open>a\<close> and reads
  \<^verbatim>\<open>b[i]\<close>; each magnitude runs over its own array.
\<close>

definition dot :: "jsnum list \<Rightarrow> jsnum list \<Rightarrow> jsnum" where
  "dot a b = foldl (\<lambda>sum (x, i). js_add sum (js_mul x (js_index b i))) (Num 0)
               (zip a [0..<length a])"

definition magnitude :: "jsnum list \<Rightarrow> jsnum" where
  "magnitude a = js_sqrt (foldl (\<lambda>sum x. js_add sum (js_mul x x)) (Num 0) a)"

definition cosineSimilarity :: "jsnum list \<Rightarrow> jsnum list \<Rightarrow> jsnum" where
  "cosineSimilarity a b = js_div (dot a b) (js_mul (magnitude a) (magnitude b))"

text \<open>
  A card of the search. \<^verbatim>\<open>content_embedding\<close> is a JSON text column; the field holds what
  \<^verbatim>\<open>JSON.parse\<close> makes of it: \<open>Some\<close> of the array of numbers, or \<open>None\<close> when the column
  is NULL or is not the text of an array, where \<^verbatim>\<open>JSON.parse\<close> or the first \<^verbatim>\<open>reduce\<close> on
  its result throws and the promise of \<^verbatim>\<open>semanticSearch\<close> rejects.
\<close>

record card =
  card_id :: string
  back_content :: string
  content_embedding :: "jsnum list option"

record scored =
  scored_card :: card
  similarity :: jsnum

datatype js_error = Thrown

fun score_cards :: "jsnum list \<Rightarrow> card list \<Rightarrow> js_error + scored list" where
  "score_cards q [] = Inr []"
| "score_cards q (c # cs) =
     (case content_embedding c of
        None \<Rightarrow> Inl Thrown
      | Some b \<Rightarrow>
          (case score_cards q cs of
             Inl e \<Rightarrow> Inl e
           | Inr rs \<Rightarrow> Inr (\<lparr>scored_card = c, similarity = cosineSimilarity q b\<rparr> # rs)))"

definition by_similarity_desc :: "scored \<Rightarrow> scored \<Rightarrow> jsnum" where
  "by_similarity_desc a b = js_sub (similarity b) (similarity a)"

text \<open>
  \<^verbatim>\<open>semanticSearch(query, cards, threshold)\<close>. The embedding model behind \<^verbatim>\<open>getEmbedding\<close>
  is a parameter.
\<close>

definition semanticSearch ::
  "(string \<Rightarrow> jsnum list) \<Rightarrow> string \<Rightarrow> card list \<Rightarrow> jsnum \<Rightarrow> js_error + card list" where
  "semanticSearch getEmbedding query cards threshold =
     (let queryEmbedding = getEmbedding query in
      case score_cards queryEmbedding cards of
        Inl e \<Rightarrow> Inl e
      | Inr results \<Rightarrow>
          Inr (map scored_card
                 (js_sort by_similarity_desc
                    (filter (\<lambda>r. js_gt (similarity r) threshold) results))))"

text \<open>The score the search gives a card, \<^verbatim>\<open>NaN\<close> where it has none.\<close>

definition score_of :: "jsnum list \<Rightarrow> card \<Rightarrow> jsnum" where
  "score_of q c = (case content_embedding c of None \<Rightarrow> NaN | Some b \<Rightarrow> cosineSimilarity q b)"


text \<open>
  Names for the two callbacks of \<^verbatim>\<open>cosineSimilarity\<close> and for the properties the proofs
  below follow through the loops.
\<close>

definition dot_step :: "jsnum list \<Rightarrow> jsnum \<Rightarrow> jsnum \<times> nat \<Rightarrow> jsnum" where
  "dot_step b acc p = js_add acc (js_mul (fst p) (js_index b (snd p)))"



definition desc :: "scored list \<Rightarrow> bool" where
  "desc rs = sorted_wrt (\<lambda>a b. js_ge (similarity a) (similarity b)) rs"

text \<open>
  The finite values of the format are whole multiples of the least subnormal value; an
  ordered value is one of these or an infinity.
\<close>

definition min_subnormal :: real where
  "min_subnormal = 2 powr (- 1074)"

definition on_grid :: "real \<Rightarrow> bool" where
  "on_grid r = (\<exists>k::int. r = of_int k * min_subnormal)"

fun ordered_value :: "jsnum \<Rightarrow> bool" where
  "ordered_value (Num r) = on_grid r"
| "ordered_value NaN = False"
| "ordered_value _ = True"

section \<open>The search on a store of arrays\<close>

text \<open>
  \<^verbatim>\<open>map\<close> and \<^verbatim>\<open>filter\<close> return a new array, \<^verbatim>\<open>sort\<close> sorts the array it is called on in
  place and returns it. The store holds the arrays by reference, one table for each element
  type, and \<open>next_ref\<close> is the next unused reference. Cards are held by value: the
  function contains no assignment to a field of a card.
\<close>

record store =
  card_arrays :: "nat \<rightharpoonup> card list"
  scored_arrays :: "nat \<rightharpoonup> scored list"
  next_ref :: nat

definition alloc_cards :: "card list \<Rightarrow> store \<Rightarrow> nat \<times> store" where
  "alloc_cards xs s =
     (next_ref s, s\<lparr>card_arrays := (card_arrays s)(next_ref s \<mapsto> xs), next_ref := Suc (next_ref s)\<rparr>)"

definition alloc_scored :: "scored list \<Rightarrow> store \<Rightarrow> nat \<times> store" where
  "alloc_scored xs s =
     (next_ref s, s\<lparr>scored_arrays := (scored_arrays s)(next_ref s \<mapsto> xs), next_ref := Suc (next_ref s)\<rparr>)"

definition read_cards :: "store \<Rightarrow> nat \<Rightarrow> card list" where
  "read_cards s r = (case card_arrays s r of None \<Rightarrow> [] | Some xs \<Rightarrow> xs)"

definition read_scored :: "store \<Rightarrow> nat \<Rightarrow> scored list" where
  "read_scored s r = (case scored_arrays s r of None \<Rightarrow> [] | Some xs \<Rightarrow> xs)"

definition sort_scored :: "nat \<Rightarrow> store \<Rightarrow> store" where
  "sort_scored r s =
     s\<lparr>scored_arrays := (scored_arrays s)(r \<mapsto> js_sort by_similarity_desc (read_scored s r))\<rparr>"

text \<open>
  \<^verbatim>\<open>semanticSearch\<close> on the store: \<open>cards\<close> is the reference of the array it is given, the
  result is the reference of the array it returns. A throw in the callback of \<^verbatim>\<open>map\<close> leaves
  no reachable array behind.
\<close>

definition semanticSearch_store ::
  "(string \<Rightarrow> jsnum list) \<Rightarrow> string \<Rightarrow> nat \<Rightarrow> jsnum \<Rightarrow> store \<Rightarrow> (js_error + nat) \<times> store" where
  "semanticSearch_store getEmbedding query cards threshold s =
     (let queryEmbedding = getEmbedding query in
      case score_cards queryEmbedding (read_cards s cards) of
        Inl e \<Rightarrow> (Inl e, s)
      | Inr scored_list \<Rightarrow>
          (let (mapped, s1) = alloc_scored scored_list s;
               (filtered, s2) =
                 alloc_scored (filter (\<lambda>r. js_gt (similarity r) threshold) (read_scored s1 mapped)) s1;
               s3 = sort_scored filtered s2;
               (results, s4) = alloc_cards (map scored_card (read_scored s3 filtered)) s3
           in (Inr results, s4)))"

definition outcome :: "(js_error + nat) \<times> store \<Rightarrow> js_error + card list" where
  "outcome p = (case fst p of Inl e \<Rightarrow> Inl e | Inr r \<Rightarrow> Inr (read_cards (snd p) r))"

definition store_ok :: "store \<Rightarrow> bool" where
  "store_ok s = (\<forall>a. next_ref s \<le> a \<longrightarrow> card_arrays s a = None \<and> scored_arrays s a = None)"

section \<open>Embedding cache\<close>

text \<open>
  \<^verbatim>\<open>embeddingCache\<close> is an object indexed by the hash of the text. \<^verbatim>\<open>hashText\<close> is called by
  both functions and defined nowhere in the sources, so it is a parameter here, as is the
  reading of the clock \<^verbatim>\<open>Date.now()\<close> (milliseconds); \<open>ttl\<close> is in seconds.
\<close>

record cache_entry =
  embedding :: "jsnum list"
  timestamp :: int
  ttl :: int

type_synonym embedding_cache = "string \<rightharpoonup> cache_entry"

definition getCachedEmbedding ::
  "(string \<Rightarrow> string) \<Rightarrow> int \<Rightarrow> string \<Rightarrow> embedding_cache \<Rightarrow> jsnum list option \<times> embedding_cache" where
  "getCachedEmbedding hashText now text embeddingCache =
     (let hash = hashText text in
      case embeddingCache hash of
        None \<Rightarrow> (None, embeddingCache(hash := None))
      | Some cached \<Rightarrow>
          if now - timestamp cached < ttl cached * 1000
          then (Some (embedding cached), embeddingCache)
          else (None, embeddingCache(hash := None)))"

definition cacheEmbedding ::
  "(string \<Rightarrow> string) \<Rightarrow> int \<Rightarrow> string \<Rightarrow> jsnum list \<Rightarrow> embedding_cache \<Rightarrow> embedding_cache" where
  "cacheEmbedding hashText now text emb embeddingCache =
     (let hash = hashText text in
      embeddingCache(hash \<mapsto> \<lparr>embedding = emb, timestamp = now, ttl = 24 * 60 * 60\<rparr>))"

subsection \<open>The cache key\<close>







section \<open>Interchange document\<close>

text \<open>
  The sources name \<^verbatim>\<open>utils/deckSerializer.ts\<close>, \<^verbatim>\<open>serialize_deck\<close> and the import
  endpoint and give a sample \<^verbatim>\<open>deck.json\<close>, but hold no code of the serializer or of the
  import. Everything in this section follows the spec instead.
\<close>

text \<open>
  Modelled from the spec: the interchange document, missing from the sources as a type, is
  a JSON value.
\<close>

datatype json = JNull | JBool bool | JNum real | JStr string | JArr "json list"
  | JObj "(string \<times> json) list"

text \<open>
  Modelled from the spec: a stored vector, either the portable textual form or the "native
  fixed-width vector type" of the backend.
\<close>

datatype vector_repr = TextVector "real list" | NativeVector "real list"

text \<open>
  Modelled from the spec: the numbers of a stored vector, whichever form it has.
\<close>

fun vector_values :: "vector_repr \<Rightarrow> real list" where
  "vector_values (TextVector v) = v"
| "vector_values (NativeVector v) = v"

text \<open>
  Modelled from the spec: the deck of the serializer, \<^verbatim>\<open>{name, description}\<close>.
\<close>

record deck =
  deck_name :: string
  deck_description :: string

text \<open>
  Modelled from the spec: the card of the serializer, with the members of a card record
  of the interchange format, \<^verbatim>\<open>{id, frontTitle, backContent, tags, favorite, embedding}\<close>.
\<close>

record deck_card =
  dc_id :: string
  frontTitle :: string
  backContent :: string
  tags :: "string list"
  favorite :: bool
  contentEmbedding :: "vector_repr option"

text \<open>
  Modelled from the spec: the error of the import, "MalformedDocument - interchange
  document fails schema validation on import".
\<close>

datatype sync_error = MalformedDocument

text \<open>
  Modelled from the spec: the embedding member that serialize writes. "serialize always
  emits embeddings as plain numeric arrays, regardless of what native vector representation
  the source backend used"; the format has \<^verbatim>\<open>"embedding": [number, ...] | null\<close>.
\<close>

definition serialize_embedding :: "vector_repr option \<Rightarrow> json" where
  "serialize_embedding e = (case e of None \<Rightarrow> JNull | Some v \<Rightarrow> JArr (map JNum (vector_values v)))"

text \<open>
  Modelled from the spec: a card record of the document; \<open>e\<close> is its \<^verbatim>\<open>embedding\<close>
  member, \<open>None\<close> for a record without one.
\<close>

definition card_record :: "deck_card \<Rightarrow> json option \<Rightarrow> json" where
  "card_record c e =
     JObj ([(''id'', JStr (dc_id c)), (''frontTitle'', JStr (frontTitle c)),
            (''backContent'', JStr (backContent c)), (''tags'', JArr (map JStr (tags c))),
            (''favorite'', JBool (favorite c))]
           @ (case e of None \<Rightarrow> [] | Some j \<Rightarrow> [(''embedding'', j)]))"

text \<open>
  Modelled from the spec: the card record that serialize writes for a card.
\<close>

definition serialize_card :: "deck_card \<Rightarrow> json" where
  "serialize_card c = card_record c (Some (serialize_embedding (contentEmbedding c)))"

text \<open>
  Modelled from the spec: the document
  \<^verbatim>\<open>{"formatVersion": 1, "name", "description", "cards": [...]}\<close>.
\<close>

definition document :: "deck \<Rightarrow> json list \<Rightarrow> json" where
  "document d records =
     JObj [(''formatVersion'', JNum 1), (''name'', JStr (deck_name d)),
           (''description'', JStr (deck_description d)), (''cards'', JArr records)]"

text \<open>
  Modelled from the spec: serialize, missing from the sources. "Ordering of cards within a
  deck is preserved by array order in the document".
\<close>

definition serialize :: "deck \<Rightarrow> deck_card list \<Rightarrow> json" where
  "serialize d cards = document d (map serialize_card cards)"

text \<open>
  Modelled from the spec: schema validation of the \<^verbatim>\<open>tags\<close> member, an array of strings.
\<close>

fun strings_of :: "json list \<Rightarrow> string list option" where
  "strings_of [] = Some []"
| "strings_of (JStr s # js) = map_option ((#) s) (strings_of js)"
| "strings_of (_ # js) = None"

text \<open>
  Modelled from the spec: schema validation of an \<^verbatim>\<open>embedding\<close> array, an array of
  numbers.
\<close>

fun numbers_of :: "json list \<Rightarrow> real list option" where
  "numbers_of [] = Some []"
| "numbers_of (JNum x # js) = map_option ((#) x) (numbers_of js)"
| "numbers_of (_ # js) = None"

text \<open>
  Modelled from the spec: the embedding member on reading. "deserialize does not require
  embeddings to be present in the document", and after a round trip an embedding is
  "absent-or-correct-length": a missing or null member and an array of another length than
  the model's \<open>L\<close> all give a card without embedding; anything else than null or an array
  of numbers fails validation.
\<close>

fun deserialize_embedding :: "nat \<Rightarrow> json option \<Rightarrow> sync_error + vector_repr option" where
  "deserialize_embedding L None = Inr None"
| "deserialize_embedding L (Some JNull) = Inr None"
| "deserialize_embedding L (Some (JArr xs)) =
     (case numbers_of xs of
        None \<Rightarrow> Inl MalformedDocument
      | Some v \<Rightarrow> Inr (if length v = L then Some (TextVector v) else None))"
| "deserialize_embedding L (Some _) = Inl MalformedDocument"

text \<open>
  Modelled from the spec: validation and reading of one card record.
\<close>

fun deserialize_card :: "nat \<Rightarrow> json \<Rightarrow> sync_error + deck_card" where
  "deserialize_card L (JObj fs) =
     (case (map_of fs ''id'', map_of fs ''frontTitle'', map_of fs ''backContent'',
            map_of fs ''tags'', map_of fs ''favorite'') of
        (Some (JStr i), Some (JStr ft), Some (JStr bc), Some (JArr ts), Some (JBool fav)) \<Rightarrow>
          (case strings_of ts of
             None \<Rightarrow> Inl MalformedDocument
           | Some tgs \<Rightarrow>
               (case deserialize_embedding L (map_of fs ''embedding'') of
                  Inl e \<Rightarrow> Inl e
                | Inr emb \<Rightarrow>
                    Inr \<lparr>dc_id = i, frontTitle = ft, backContent = bc, tags = tgs,
                         favorite = fav, contentEmbedding = emb\<rparr>))
      | _ \<Rightarrow> Inl MalformedDocument)"
| "deserialize_card L _ = Inl MalformedDocument"

text \<open>
  Modelled from the spec: validation and reading of the card records in array order; the
  first record that fails rejects the list.
\<close>

fun deserialize_cards :: "nat \<Rightarrow> json list \<Rightarrow> sync_error + deck_card list" where
  "deserialize_cards L [] = Inr []"
| "deserialize_cards L (j # js) =
     (case deserialize_card L j of
        Inl e \<Rightarrow> Inl e
      | Inr c \<Rightarrow> (case deserialize_cards L js of Inl e \<Rightarrow> Inl e | Inr cs \<Rightarrow> Inr (c # cs)))"

text \<open>
  Modelled from the spec: deserialize, missing from the sources.
\<close>

fun deserialize :: "nat \<Rightarrow> json \<Rightarrow> sync_error + deck \<times> deck_card list" where
  "deserialize L (JObj fs) =
     (case (map_of fs ''formatVersion'', map_of fs ''name'', map_of fs ''description'',
            map_of fs ''cards'') of
        (Some (JNum v), Some (JStr n), Some (JStr ds), Some (JArr records)) \<Rightarrow>
          (case deserialize_cards L records of
             Inl e \<Rightarrow> Inl e
           | Inr cs \<Rightarrow> Inr (\<lparr>deck_name = n, deck_description = ds\<rparr>, cs))
      | _ \<Rightarrow> Inl MalformedDocument)"
| "deserialize L _ = Inl MalformedDocument"

text \<open>
  Modelled from the spec: a card without embedding is one "needing re-embedding".
\<close>

definition needs_reembedding :: "deck_card \<Rightarrow> bool" where
  "needs_reembedding c = (contentEmbedding c = None)"

text \<open>
  Modelled from the spec: the local store of the import, from a deck id to the deck and
  its cards.
\<close>

type_synonym local_store = "string \<rightharpoonup> deck \<times> deck_card list"

text \<open>
  Modelled from the spec: import, missing from the sources. "import overwrites local state
  for that deck"; a document that fails validation is rejected with \<open>MalformedDocument\<close>,
  "no partial deck created".
\<close>

definition import_document ::
  "nat \<Rightarrow> string \<Rightarrow> json \<Rightarrow> local_store \<Rightarrow> (sync_error + unit) \<times> local_store" where
  "import_document L deckId doc local =
     (case deserialize L doc of
        Inl e \<Rightarrow> (Inl MalformedDocument, local)
      | Inr (d, cs) \<Rightarrow> (Inr (), local(deckId \<mapsto> (d, cs))))"

text \<open>
  Modelled from the spec: what a round trip makes of an embedding, "absent-or-correct-length".
\<close>

definition imported_embedding :: "nat \<Rightarrow> vector_repr option \<Rightarrow> vector_repr option" where
  "imported_embedding L e =
     (case e of
        None \<Rightarrow> None
      | Some v \<Rightarrow> if length (vector_values v) = L then Some (TextVector (vector_values v)) else None)"

text \<open>
  Modelled from the spec: the \<^verbatim>\<open>embedding\<close> member of a card record.
\<close>

definition embedding_field :: "json \<Rightarrow> json option" where
  "embedding_field j = (case j of JObj fs \<Rightarrow> map_of fs ''embedding'' | _ \<Rightarrow> None)"

text \<open>
  Modelled from the spec: the \<^verbatim>\<open>cards\<close> member of a document.
\<close>

definition document_cards :: "json \<Rightarrow> json list" where
  "document_cards j =
     (case j of
        JObj fs \<Rightarrow> (case map_of fs ''cards'' of Some (JArr records) \<Rightarrow> records | _ \<Rightarrow> [])
      | _ \<Rightarrow> [])"

section \<open>Example values\<close>

definition unit_model :: "string \<Rightarrow> jsnum list" where
  "unit_model t = [Num 1, Num 0]"

definition card_1 :: card where
  "card_1 = \<lparr>card_id = ''1'', back_content = ''portrait photography tips'',
             content_embedding = Some [Num 1, Num 0]\<rparr>"

definition card_short :: card where
  "card_short = \<lparr>card_id = ''6'', back_content = ''smaller model'',
             content_embedding = Some [Num 1]\<rparr>"




definition card_2 :: card where
  "card_2 = \<lparr>card_id = ''2'', back_content = ''landscape photography tips'',
             content_embedding = Some [Num 1, Num 0]\<rparr>"

definition card_3 :: card where
  "card_3 = \<lparr>card_id = ''3'', back_content = ''how to cook pasta'',
             content_embedding = Some [Num 0, Num 1]\<rparr>"


definition card_long :: card where
  "card_long = \<lparr>card_id = ''5'', back_content = ''other model'',
             content_embedding = Some [Num 1, Num 0, Num 0]\<rparr>"

definition store_0 :: store where
  "store_0 = \<lparr>card_arrays = Map.empty(0 \<mapsto> [card_3, card_2, card_1]),
             scored_arrays = Map.empty, next_ref = 1\<rparr>"

definition plain_key :: "string \<Rightarrow> string" where
  "plain_key t = t"

definition entry_0 :: cache_entry where
  "entry_0 = \<lparr>embedding = [Num 1, Num 0], timestamp = 0, ttl = 1\<rparr>"

definition cache_0 :: embedding_cache where
  "cache_0 = Map.empty(''k'' \<mapsto> entry_0)"

definition cache_empty :: embedding_cache where
  "cache_empty = Map.empty"

definition deck_0 :: deck where
  "deck_0 = \<lparr>deck_name = ''Image Prompts'', deck_description = ''My image generation prompts''\<rparr>"

definition dcard_a :: deck_card where
  "dcard_a = \<lparr>dc_id = ''card-1'', frontTitle = ''Photorealistic Portrait'',
              backContent = ''A detailed portrait of...'', tags = [''image-gen'', ''portrait''],
              favorite = True, contentEmbedding = Some (NativeVector [1, 0])\<rparr>"

definition dcard_b :: deck_card where
  "dcard_b = \<lparr>dc_id = ''card-2'', frontTitle = ''Landscape'',
              backContent = ''A wide valley'', tags = [],
              favorite = False, contentEmbedding = None\<rparr>"

definition dcard_c :: deck_card where
  "dcard_c = \<lparr>dc_id = ''card-3'', frontTitle = ''Old model'',
              backContent = ''Embedded by another model'', tags = [''image-gen''],
              favorite = False, contentEmbedding = Some (TextVector [1, 0, 0])\<rparr>"

definition bad_record :: json where
  "bad_record = JObj [(''id'', JStr ''card-9''), (''frontTitle'', JStr ''Broken''),
                      (''backContent'', JStr ''text''), (''tags'', JArr [JNum 7]),
                      (''favorite'', JBool False), (''embedding'', JNull)]"

definition local_0 :: local_store where
  "local_0 = Map.empty(''deck-1'' \<mapsto> (deck_0, [dcard_b]))"

section \<open>Properties of the rounding\<close>

lemma round_half_even_of_int: "round_half_even (of_int n) = n"
  by (simp add: round_half_even_def)

lemma round_half_even_ge1: "1 \<le> y \<Longrightarrow> 1 \<le> round_half_even y"
proof -
  assume "1 \<le> y"
  then have "1 \<le> \<lfloor>y\<rfloor>" by linarith
  then show ?thesis by (simp add: round_half_even_def Let_def)
qed

lemma round_half_even_nonpos: "y \<le> 0 \<Longrightarrow> round_half_even y \<le> 0"
proof -
  assume y: "y \<le> 0"
  show ?thesis
  proof (cases "y = of_int \<lfloor>y\<rfloor>")
    case True
    then have "round_half_even y = \<lfloor>y\<rfloor>"
      by (metis round_half_even_of_int)
    with y show ?thesis by simp
  next
    case False
    then have "of_int \<lfloor>y\<rfloor> < y" by linarith
    with y have "\<lfloor>y\<rfloor> \<le> - 1" by linarith
    then show ?thesis by (simp add: round_half_even_def Let_def)
  qed
qed


lemma round_double_0: "round_double 0 = Num 0"
  by (simp add: round_double_def)

lemma abs_powr_id: "\<bar>(2::real) powr y\<bar> = 2 powr y"
  by simp

lemma round_double_pow2:
  assumes "- 1022 \<le> k" "k < 1024"
  shows "round_double (2 powr of_int k) = Num (2 powr of_int k)"
proof -
  have e: "double_exponent (2 powr of_int k) = k"
    using assms by (simp add: double_exponent_def)
  have "(2::real) powr of_int k / 2 powr (of_int k - 52) = 2 powr 52"
    by (simp add: powr_diff [symmetric] del: powr_numeral)
  then have q: "(2::real) powr of_int k / 2 powr (of_int k - 52) = of_int (2 ^ 52)"
    by simp
  have "of_int (2 ^ 52) * (2::real) powr (of_int k - 52) = 2 powr 52 * 2 powr (of_int k - 52)"
    by simp
  also have "\<dots> = 2 powr of_int k"
    by (subst powr_add [symmetric]) simp
  finally have r: "round_to_quantum (2 powr of_int k) = 2 powr of_int k"
    unfolding round_to_quantum_def quantum_def e q round_half_even_of_int .
  have "(2::real) powr of_int k < 2 powr 1024"
    by (rule powr_less_mono) (use assms in simp_all)
  then have lt: "\<not> double_overflow (2 powr of_int k)"
    unfolding double_overflow_def by (simp only: abs_powr_id not_le) 
  have nz: "(2::real) powr of_int k \<noteq> 0" by simp
  show ?thesis
    unfolding round_double_def Let_def r using lt nz by simp
qed

lemma round_double_1: "round_double 1 = Num 1"
  using round_double_pow2 [of 0] by simp




lemma min_subnormal_pos: "0 < min_subnormal"
  by (simp add: min_subnormal_def)

lemma quantum_pos: "0 < quantum x"
  by (simp add: quantum_def)

lemma double_exponent_ge: "- 1022 \<le> double_exponent x"
  by (simp add: double_exponent_def)

lemma quantum_grid: "quantum x = of_int (2 ^ nat (double_exponent x + 1022)) * min_subnormal"
proof -
  let ?n = "double_exponent x + 1022"
  have n: "0 \<le> ?n" using double_exponent_ge [of x] by simp
  have "quantum x = 2 powr (of_int ?n + (- 1074))"
    by (simp add: quantum_def)
  also have "\<dots> = 2 powr of_int ?n * 2 powr (- 1074)"
    by (rule powr_add)
  also have "(2::real) powr of_int ?n = 2 ^ nat ?n"
    using n by (simp only: powr_real_of_int) simp
  finally show ?thesis by (simp add: min_subnormal_def)
qed

lemma quantum_le:
  assumes "min_subnormal \<le> \<bar>x\<bar>"
  shows "quantum x \<le> \<bar>x\<bar>"
proof (cases "- 1022 \<le> \<lfloor>log 2 \<bar>x\<bar>\<rfloor>")
  case True
  then have e: "double_exponent x = \<lfloor>log 2 \<bar>x\<bar>\<rfloor>" by (simp add: double_exponent_def)
  have x: "0 < \<bar>x\<bar>" using assms min_subnormal_pos by linarith
  have "of_int \<lfloor>log 2 \<bar>x\<bar>\<rfloor> - 52 \<le> log 2 \<bar>x\<bar>" by linarith
  then have "(2::real) powr (of_int \<lfloor>log 2 \<bar>x\<bar>\<rfloor> - 52) \<le> 2 powr log 2 \<bar>x\<bar>"
    by (rule powr_mono) simp
  also have "\<dots> = \<bar>x\<bar>" using x by simp
  finally show ?thesis by (simp add: quantum_def e)
next
  case False
  then have "double_exponent x = - 1022" by (simp add: double_exponent_def)
  then have "quantum x = min_subnormal" by (simp add: quantum_def min_subnormal_def)
  with assms show ?thesis by simp
qed

lemma round_to_quantum_pos:
  assumes "min_subnormal \<le> x"
  shows "0 < round_to_quantum x"
proof -
  have x: "0 < x" using assms min_subnormal_pos by linarith
  then have "quantum x \<le> x" using quantum_le [of x] assms by simp
  then have "1 \<le> x / quantum x" using quantum_pos [of x] by (simp add: pos_le_divide_eq)
  then have "1 \<le> round_half_even (x / quantum x)" by (rule round_half_even_ge1)
  then have "0 < real_of_int (round_half_even (x / quantum x))" by simp
  then show ?thesis
    unfolding round_to_quantum_def using quantum_pos [of x] by (rule mult_pos_pos)
qed

lemma round_to_quantum_nonpos:
  assumes "x \<le> 0"
  shows "round_to_quantum x \<le> 0"
proof -
  have "x / quantum x \<le> 0" using assms quantum_pos [of x] by (simp add: divide_nonpos_pos)
  then have "round_half_even (x / quantum x) \<le> 0" by (rule round_half_even_nonpos)
  then have "real_of_int (round_half_even (x / quantum x)) \<le> 0" by simp
  then show ?thesis
    unfolding round_to_quantum_def using quantum_pos [of x]
    by (simp add: mult_nonpos_nonneg)
qed

lemma round_double_pos: "min_subnormal \<le> x \<Longrightarrow> js_gt (round_double x) (Num 0)"
  using round_to_quantum_pos [of x] min_subnormal_pos
  by (auto simp: round_double_def Let_def)

lemma round_double_nonpos: "x \<le> 0 \<Longrightarrow> \<not> js_gt (round_double x) (Num 0)"
  using round_to_quantum_nonpos [of x]
  by (auto simp: round_double_def Let_def double_overflow_def)

lemma on_grid_0: "on_grid 0"
  unfolding on_grid_def by (rule exI [of _ 0]) simp

lemma round_double_on_grid: "round_double x = Num r \<Longrightarrow> on_grid r"
proof -
  assume a: "round_double x = Num r"
  show ?thesis
  proof (cases "x = 0")
    case True
    with a show ?thesis by (simp add: round_double_def on_grid_0)
  next
    case False
    with a have "r = round_to_quantum x"
      by (simp add: round_double_def Let_def split: if_splits)
    then have "r = of_int (round_half_even (x / quantum x) * 2 ^ nat (double_exponent x + 1022))
                 * min_subnormal"
      using quantum_grid [of x] by (simp add: round_to_quantum_def)
    then show ?thesis unfolding on_grid_def by (rule exI)
  qed
qed

lemma on_grid_diff:
  assumes "on_grid a" "on_grid b" "a < b"
  shows "min_subnormal \<le> b - a"
proof -
  from assms obtain ka kb :: int where a: "a = of_int ka * min_subnormal"
    and b: "b = of_int kb * min_subnormal" unfolding on_grid_def by blast
  from assms(3) have "ka < kb"
    unfolding a b using min_subnormal_pos by (simp add: mult_less_cancel_right)
  then have "1 \<le> real_of_int (kb - ka)" by simp
  then have "1 * min_subnormal \<le> real_of_int (kb - ka) * min_subnormal"
    using min_subnormal_pos by (simp only: mult_le_cancel_right) simp
  then show ?thesis by (simp add: a b algebra_simps)
qed

lemma round_double_sub_gt:
  assumes "on_grid a" "on_grid b"
  shows "js_gt (round_double (b - a)) (Num 0) = (a < b)"
proof (cases "a < b")
  case True
  with assms have "min_subnormal \<le> b - a" by (simp add: on_grid_diff)
  then show ?thesis using True by (simp add: round_double_pos)
next
  case False
  then have "b - a \<le> 0" by simp
  then show ?thesis using False by (simp add: round_double_nonpos)
qed

lemma round_double_not_NaN: "round_double x \<noteq> NaN"
  by (simp add: round_double_def Let_def)




lemma ordered_value_round_double: "ordered_value (round_double x)"
proof (cases "round_double x")
  case (Num r)
  then show ?thesis using round_double_on_grid [of x r] by simp
next
  case NaN
  then show ?thesis by (simp add: round_double_not_NaN)
qed simp_all

section \<open>Properties of the numbers and of the sort\<close>

lemmas eval_search = round_double_0 round_double_1 semanticSearch_def Let_def cosineSimilarity_def
  dot_def magnitude_def
  js_index_def js_sort_def by_similarity_desc_def js_sub_def score_of_def js_signed_inf_def

lemma js_gt_not_NaN: "js_gt x y \<Longrightarrow> x \<noteq> NaN \<and> y \<noteq> NaN"
  by (cases x; cases y; simp)

lemma js_gt_sub_iff:
  "ordered_value x \<Longrightarrow> ordered_value y \<Longrightarrow> js_gt (js_sub y x) (Num 0) = js_gt y x"
  by (cases x; cases y; simp add: js_sub_def round_double_sub_gt)

lemma js_gt_sub_neq: "js_gt (js_sub y x) (Num 0) \<Longrightarrow> x \<noteq> y"
  by (cases x; cases y; auto simp: js_sub_def round_double_0)

lemma ordered_value_not_NaN: "ordered_value x \<Longrightarrow> x \<noteq> NaN"
  by (cases x) simp_all

lemma ordered_value_js_div: "js_div x y \<noteq> NaN \<Longrightarrow> ordered_value (js_div x y)"
  by (cases x; cases y) (auto simp: ordered_value_round_double js_signed_inf_def on_grid_0)

lemma js_ge_trans: "js_ge x y \<Longrightarrow> js_ge y z \<Longrightarrow> js_ge x z"
  by (cases x; cases y; cases z; simp add: js_ge_def)

lemma js_gt_imp_ge: "js_gt x y \<Longrightarrow> js_ge x y"
  by (cases x; cases y; simp add: js_ge_def)

lemma not_js_gt_imp_ge: "x \<noteq> NaN \<Longrightarrow> y \<noteq> NaN \<Longrightarrow> \<not> js_gt y x \<Longrightarrow> js_ge x y"
  by (simp add: js_ge_def)

lemma set_js_insort: "set (js_insort cmp x ys) = insert x (set ys)"
  by (induction ys) auto

lemma set_js_sort: "set (js_sort cmp xs) = set xs"
  by (induction xs) (simp_all add: js_sort_def set_js_insort)

lemma length_js_insort: "length (js_insort cmp x ys) = Suc (length ys)"
  by (induction ys) auto

lemma length_js_sort: "length (js_sort cmp xs) = length xs"
  by (induction xs) (simp_all add: js_sort_def length_js_insort)

lemma filter_js_insort:
  "filter (\<lambda>r. similarity r = s) (js_insort by_similarity_desc x ys) =
   filter (\<lambda>r. similarity r = s) (x # ys)"
proof (induction ys)
  case Nil
  show ?case by simp
next
  case (Cons y ys)
  show ?case
  proof (cases "js_gt (by_similarity_desc x y) (Num 0)")
    case True
    then have "similarity x \<noteq> similarity y"
      using js_gt_sub_neq [of "similarity y" "similarity x"]
      by (auto simp: by_similarity_desc_def)
    with True Cons show ?thesis by auto
  next
    case False
    then show ?thesis by simp
  qed
qed

lemma filter_js_sort:
  "filter (\<lambda>r. similarity r = s) (js_sort by_similarity_desc xs) =
   filter (\<lambda>r. similarity r = s) xs"
proof (induction xs)
  case Nil
  show ?case by (simp add: js_sort_def)
next
  case (Cons x xs)
  have "js_sort by_similarity_desc (x # xs) =
        js_insort by_similarity_desc x (js_sort by_similarity_desc xs)"
    by (simp add: js_sort_def)
  with Cons show ?case by (simp add: filter_js_insort)
qed

lemma desc_js_insort:
  assumes "desc ys" and "ordered_value (similarity x)"
    and "\<forall>y\<in>set ys. ordered_value (similarity y)"
  shows "desc (js_insort by_similarity_desc x ys)"
  using assms
proof (induction ys)
  case Nil
  show ?case by (simp add: desc_def)
next
  case (Cons y ys)
  show ?case
  proof (cases "js_gt (by_similarity_desc x y) (Num 0)")
    case True
    with Cons.prems have "js_gt (similarity y) (similarity x)"
      by (simp add: by_similarity_desc_def js_gt_sub_iff)
    then have "js_ge (similarity y) (similarity x)" by (rule js_gt_imp_ge)
    moreover have "desc (js_insort by_similarity_desc x ys)"
      using Cons by (simp add: desc_def)
    ultimately show ?thesis
      using True Cons.prems by (auto simp: desc_def set_js_insort)
  next
    case False
    with Cons.prems have "\<not> js_gt (similarity y) (similarity x)"
      by (simp add: by_similarity_desc_def js_gt_sub_iff)
    with Cons.prems have xy: "js_ge (similarity x) (similarity y)"
      by (simp add: not_js_gt_imp_ge ordered_value_not_NaN)
    have "\<forall>z\<in>set ys. js_ge (similarity x) (similarity z)"
      using xy Cons.prems(1) by (auto simp: desc_def intro: js_ge_trans)
    with xy False Cons.prems(1) show ?thesis by (simp add: desc_def)
  qed
qed

lemma desc_js_sort:
  "\<forall>x\<in>set xs. ordered_value (similarity x) \<Longrightarrow> desc (js_sort by_similarity_desc xs)"
proof (induction xs)
  case Nil
  show ?case by (simp add: js_sort_def desc_def)
next
  case (Cons x xs)
  have "js_sort by_similarity_desc (x # xs) =
        js_insort by_similarity_desc x (js_sort by_similarity_desc xs)"
    by (simp add: js_sort_def)
  with Cons show ?case by (simp add: desc_js_insort set_js_sort)
qed

section \<open>Properties of the cosine\<close>

lemma dot_alt: "dot a b = foldl (dot_step b) (Num 0) (zip a [0..<length a])"
proof -
  have "(\<lambda>acc (x, i). js_add acc (js_mul x (js_index b i))) = dot_step b"
    by (intro ext) (simp add: dot_step_def case_prod_unfold)
  then show ?thesis by (simp add: dot_def)
qed

lemma foldl_dot_step_NaN: "foldl (dot_step b) NaN ps = NaN"
  by (induction ps) (simp_all add: dot_step_def)

lemma js_add_NaN_right: "js_add x NaN = NaN"
  by (cases x) simp_all

lemma js_mul_NaN_right: "js_mul x NaN = NaN"
  by (cases x) simp_all

lemma foldl_dot_step_short:
  "length b < k + length a \<Longrightarrow> length b \<ge> k \<Longrightarrow> foldl (dot_step b) acc (zip a [k..<k + length a]) = NaN"
proof (induction a arbitrary: k acc)
  case Nil
  then show ?case by simp
next
  case (Cons x xs)
  have z: "zip (x # xs) [k..<k + length (x # xs)] = (x, k) # zip xs [Suc k..<Suc k + length xs]"
    by (subst upt_rec) (simp del: upt_Suc)
  show ?case
  proof (cases "k = length b")
    case True
    then have "dot_step b acc (x, k) = NaN"
      by (simp add: dot_step_def js_index_def js_mul_NaN_right js_add_NaN_right)
    with z show ?thesis by (simp add: foldl_dot_step_NaN)
  next
    case False
    with Cons.prems have "length b < Suc k + length xs" "Suc k \<le> length b" by simp_all
    then have "foldl (dot_step b) (dot_step b acc (x, k)) (zip xs [Suc k..<Suc k + length xs]) = NaN"
      by (rule Cons.IH)
    with z show ?thesis by simp
  qed
qed

lemma dot_short: "length b < length a \<Longrightarrow> dot a b = NaN"
  using foldl_dot_step_short [of b 0 a "Num 0"] by (simp add: dot_alt)

lemma cosineSimilarity_short: "length b < length a \<Longrightarrow> cosineSimilarity a b = NaN"
  by (simp add: cosineSimilarity_def dot_short)














lemma ordered_value_score:
  "js_gt (score_of q c) threshold \<Longrightarrow> ordered_value (score_of q c)"
proof -
  assume gt: "js_gt (score_of q c) threshold"
  then have n: "score_of q c \<noteq> NaN" by (auto dest: js_gt_not_NaN)
  then obtain b where b: "content_embedding c = Some b"
    by (auto simp: score_of_def split: option.splits)
  with n show ?thesis
    by (simp add: score_of_def cosineSimilarity_def ordered_value_js_div)
qed

section \<open>Properties of the search\<close>

lemma score_cards_Inr:
  "score_cards q cs = Inr rs \<Longrightarrow>
   rs = map (\<lambda>c. \<lparr>scored_card = c, similarity = score_of q c\<rparr>) cs"
  by (induction cs arbitrary: rs) (auto simp: score_of_def split: option.splits sum.splits)

lemma score_cards_total:
  "\<forall>c\<in>set cs. content_embedding c \<noteq> None \<Longrightarrow> \<exists>rs. score_cards q cs = Inr rs"
  by (induction cs) (auto split: option.splits sum.splits)

lemma semanticSearch_Inr:
  assumes "semanticSearch g query cards th = Inr out"
  shows "out = map scored_card (js_sort by_similarity_desc
           (filter (\<lambda>r. js_gt (similarity r) th)
              (map (\<lambda>c. \<lparr>scored_card = c, similarity = score_of (g query) c\<rparr>) cards)))"
  using assms
  by (auto simp: semanticSearch_def Let_def split: sum.splits dest: score_cards_Inr)

lemma semanticSearch_mem:
  assumes "semanticSearch g query cards th = Inr out"
  shows "c \<in> set out \<longleftrightarrow> c \<in> set cards \<and> js_gt (score_of (g query) c) th"
  unfolding semanticSearch_Inr [OF assms]
  by (force simp: set_js_sort)

lemma semanticSearch_total:
  "\<forall>c\<in>set cards. content_embedding c \<noteq> None \<Longrightarrow> \<exists>out. semanticSearch g query cards th = Inr out"
  using score_cards_total [of cards "g query"]
  by (auto simp: semanticSearch_def Let_def)

lemma semanticSearch_embedded:
  assumes "semanticSearch g query cards th = Inr out"
  shows "\<forall>c\<in>set cards. content_embedding c \<noteq> None"
proof -
  have "score_cards q cs = Inr rs \<Longrightarrow> \<forall>c\<in>set cs. content_embedding c \<noteq> None" for q cs rs
    by (induction cs arbitrary: rs) (auto split: option.splits sum.splits)
  with assms show ?thesis
    by (auto simp: semanticSearch_def Let_def split: sum.splits)
qed

lemma semanticSearch_Inr_ranking:
  assumes "semanticSearch getEmbedding query cards threshold = Inr out"
  shows "sorted_wrt (\<lambda>a b. js_ge (score_of (getEmbedding query) a) (score_of (getEmbedding query) b)) out
       \<and> (\<forall>c\<in>set out. js_gt (score_of (getEmbedding query) c) threshold)
       \<and> (\<forall>s. filter (\<lambda>c. score_of (getEmbedding query) c = s) out =
               filter (\<lambda>c. score_of (getEmbedding query) c = s \<and> js_gt s threshold) cards)
       \<and> length out = length (filter (\<lambda>c. js_gt (score_of (getEmbedding query) c) threshold) cards)"
proof -
  define q where "q = getEmbedding query"
  define mk where "mk = (\<lambda>c. \<lparr>scored_card = c, similarity = score_of q c\<rparr>)"
  define L0 where "L0 = filter (\<lambda>r. js_gt (similarity r) threshold) (map mk cards)"
  define L where "L = js_sort by_similarity_desc L0"
  have out: "out = map scored_card L"
    using semanticSearch_Inr [OF assms] by (simp add: L_def L0_def mk_def q_def)
  have L0: "\<forall>r\<in>set L0. similarity r = score_of q (scored_card r) \<and> js_gt (similarity r) threshold"
    by (auto simp: L0_def mk_def)
  have nan: "\<forall>r\<in>set L0. ordered_value (similarity r)"
  proof
    fix r
    assume "r \<in> set L0"
    with L0 have "similarity r = score_of q (scored_card r)"
      and "js_gt (score_of q (scored_card r)) threshold" by auto
    then show "ordered_value (similarity r)" by (simp add: ordered_value_score)
  qed
  have L: "\<forall>r\<in>set L. similarity r = score_of q (scored_card r) \<and> js_gt (similarity r) threshold"
    using L0 by (auto simp: L_def set_js_sort)
  have "desc L"
    unfolding L_def using nan by (rule desc_js_sort)
  then have "sorted_wrt (\<lambda>a b. js_ge (score_of q (scored_card a)) (score_of q (scored_card b))) L"
    unfolding desc_def using L by (auto elim!: sorted_wrt_mono_rel [rotated])
  then have 1: "sorted_wrt (\<lambda>a b. js_ge (score_of q a) (score_of q b)) out"
    by (simp add: out sorted_wrt_map)
  have 2: "\<forall>c\<in>set out. js_gt (score_of q c) threshold"
    using L by (auto simp: out)
  have 3: "filter (\<lambda>c. score_of q c = s) out =
           filter (\<lambda>c. score_of q c = s \<and> js_gt s threshold) cards" for s
  proof -
    have "filter (\<lambda>c. score_of q c = s) out =
          map scored_card (filter (\<lambda>r. score_of q (scored_card r) = s) L)"
      by (simp add: out filter_map comp_def)
    also have "filter (\<lambda>r. score_of q (scored_card r) = s) L = filter (\<lambda>r. similarity r = s) L"
      using L by (auto intro: filter_cong)
    also have "\<dots> = filter (\<lambda>r. similarity r = s) L0"
      by (simp add: L_def filter_js_sort)
    also have "\<dots> = map mk (filter (\<lambda>c. score_of q c = s \<and> js_gt s threshold) cards)"
    proof -
      have "filter (\<lambda>c. js_gt (score_of q c) threshold \<and> score_of q c = s) cards =
            filter (\<lambda>c. score_of q c = s \<and> js_gt s threshold) cards"
        by (rule filter_cong) auto
      then show ?thesis
        by (simp add: L0_def mk_def filter_map comp_def)
    qed
    also have "map scored_card \<dots> = filter (\<lambda>c. score_of q c = s \<and> js_gt s threshold) cards"
      by (simp add: mk_def comp_def)
    finally show ?thesis .
  qed
  have 4: "length out = length (filter (\<lambda>c. js_gt (score_of q c) threshold) cards)"
    by (simp add: out L_def length_js_sort L0_def filter_map comp_def mk_def)
  from 1 2 3 4 show ?thesis unfolding q_def by blast
qed

lemma semanticSearch_Inr_not_shorter:
  assumes "semanticSearch getEmbedding query cards threshold = Inr out"
  shows "\<forall>c\<in>set out. \<exists>b. content_embedding c = Some b \<and> length (getEmbedding query) \<le> length b"
proof
  fix c
  assume c: "c \<in> set out"
  with semanticSearch_mem [OF assms] have "c \<in> set cards"
    and gt: "js_gt (score_of (getEmbedding query) c) threshold" by simp_all
  with semanticSearch_embedded [OF assms] obtain b where b: "content_embedding c = Some b"
    by auto
  have "\<not> length b < length (getEmbedding query)"
  proof
    assume "length b < length (getEmbedding query)"
    then have "score_of (getEmbedding query) c = NaN"
      by (simp add: score_of_def b cosineSimilarity_short)
    with gt show False by simp
  qed
  with b show "\<exists>b. content_embedding c = Some b \<and> length (getEmbedding query) \<le> length b"
    by simp
qed

text \<open>
  Claim C1, as the code has it. \<^verbatim>\<open>semanticSearch\<close> takes no limit and breaks no tie by id. On
  candidates whose embeddings all decode it returns; the returned cards are in order of
  non-increasing cosine score, every returned score is strictly greater than the threshold,
  the cards of one score come out in the order they have in the candidate list, and every
  candidate above the threshold is returned.
\<close>

theorem semanticSearch_ranking:
  assumes "\<forall>c\<in>set cards. content_embedding c \<noteq> None"
  shows "\<exists>out. semanticSearch getEmbedding query cards threshold = Inr out
       \<and> sorted_wrt (\<lambda>a b. js_ge (score_of (getEmbedding query) a) (score_of (getEmbedding query) b)) out
       \<and> (\<forall>c\<in>set out. js_gt (score_of (getEmbedding query) c) threshold)
       \<and> (\<forall>s. filter (\<lambda>c. score_of (getEmbedding query) c = s) out =
               filter (\<lambda>c. score_of (getEmbedding query) c = s \<and> js_gt s threshold) cards)
       \<and> length out = length (filter (\<lambda>c. js_gt (score_of (getEmbedding query) c) threshold) cards)"
proof -
  from semanticSearch_total [OF assms] obtain out
    where out: "semanticSearch getEmbedding query cards threshold = Inr out" by blast
  from semanticSearch_Inr_ranking [OF out] out show ?thesis by blast
qed

theorem semanticSearch_ranking_witness:
  "semanticSearch unit_model ''q'' [card_3, card_2, card_1] (Num 0) = Inr [card_2, card_1]
   \<and> sorted_wrt (\<lambda>a b. js_ge (score_of (unit_model ''q'') a) (score_of (unit_model ''q'') b)) [card_2, card_1]
   \<and> length [card_2, card_1] = length (filter (\<lambda>c. js_gt (score_of (unit_model ''q'') c) (Num 0)) [card_3, card_2, card_1])"
proof -
  have e: "\<forall>c\<in>set [card_3, card_2, card_1]. content_embedding c \<noteq> None"
    by (simp add: card_1_def card_2_def card_3_def)
  have s: "semanticSearch unit_model ''q'' [card_3, card_2, card_1] (Num 0) = Inr [card_2, card_1]"
    by (simp add: eval_search unit_model_def card_1_def card_2_def card_3_def)
  from semanticSearch_ranking [OF e, of unit_model "''q''" "Num 0"] s show ?thesis by auto
qed

text \<open>
  Claim C1 as stated fails on two candidates of equal score: they are returned in the order
  given, whatever their ids, so neither strictly descending nor ordered by id, and both
  are returned where a limit of 1 would allow one.
\<close>

theorem semanticSearch_ranking_counterexample:
  "semanticSearch unit_model ''q'' [card_2, card_1] (Num 0) = Inr [card_2, card_1]
   \<and> semanticSearch unit_model ''q'' [card_1, card_2] (Num 0) = Inr [card_1, card_2]
   \<and> score_of (unit_model ''q'') card_2 = score_of (unit_model ''q'') card_1
   \<and> \<not> js_gt (score_of (unit_model ''q'') card_2) (score_of (unit_model ''q'') card_1)
   \<and> card_id card_1 < card_id card_2
   \<and> \<not> length [card_2, card_1] \<le> (1::nat)"
  by (simp add: eval_search unit_model_def card_1_def card_2_def)

text \<open>
  Claim C2, as the code has it. There is no comparison of lengths. On candidates whose
  embeddings all decode the search returns; a candidate whose vector is shorter than the
  query vector is scored \<^verbatim>\<open>NaN\<close> and is not among the returned cards, whatever the threshold;
  so every returned card has a vector at least as long as the query vector.
\<close>

theorem semanticSearch_shorter_excluded:
  assumes "\<forall>c\<in>set cards. content_embedding c \<noteq> None"
  shows "\<exists>out. semanticSearch getEmbedding query cards threshold = Inr out
       \<and> (\<forall>c\<in>set cards. \<forall>b. content_embedding c = Some b \<and> length b < length (getEmbedding query)
             \<longrightarrow> cosineSimilarity (getEmbedding query) b = NaN \<and> c \<notin> set out)
       \<and> (\<forall>c\<in>set out. \<exists>b. content_embedding c = Some b \<and> length (getEmbedding query) \<le> length b)"
proof -
  from semanticSearch_total [OF assms] obtain out
    where out: "semanticSearch getEmbedding query cards threshold = Inr out" by blast
  have "cosineSimilarity (getEmbedding query) b = NaN \<and> c \<notin> set out"
    if "content_embedding c = Some b" "length b < length (getEmbedding query)" for c b
  proof -
    from that(2) have nan: "cosineSimilarity (getEmbedding query) b = NaN"
      by (rule cosineSimilarity_short)
    then have "score_of (getEmbedding query) c = NaN" by (simp add: score_of_def that(1))
    then have "c \<notin> set out" using semanticSearch_mem [OF out, of c] by simp
    with nan show ?thesis ..
  qed
  with semanticSearch_Inr_not_shorter [OF out] out show ?thesis by blast
qed

theorem semanticSearch_shorter_excluded_witness:
  "semanticSearch unit_model ''q'' [card_short, card_1] NInf = Inr [card_1]
   \<and> content_embedding card_short = Some [Num 1]
   \<and> length [Num 1] < length (unit_model ''q'')
   \<and> cosineSimilarity (unit_model ''q'') [Num 1] = NaN
   \<and> card_short \<notin> set [card_1]"
proof -
  have e: "\<forall>c\<in>set [card_short, card_1]. content_embedding c \<noteq> None"
    by (simp add: card_1_def card_short_def)
  have s: "semanticSearch unit_model ''q'' [card_short, card_1] NInf = Inr [card_1]"
    by (simp add: eval_search unit_model_def card_1_def card_short_def)
  have b: "content_embedding card_short = Some [Num 1]" by (simp add: card_short_def)
  have l: "length [Num 1] < length (unit_model ''q'')" by (simp add: unit_model_def)
  have m: "card_short \<in> set [card_short, card_1]" by simp
  from semanticSearch_shorter_excluded [OF e, of unit_model "''q''" NInf] s b l m
  show ?thesis by auto
qed

text \<open>
  Claim C2 as stated fails on a candidate whose vector is longer than the query vector: it
  is scored on its first components and returned at threshold 0.
\<close>

theorem dimension_guard_counterexample:
  "semanticSearch unit_model ''q'' [card_long] (Num 0) = Inr [card_long]
   \<and> content_embedding card_long = Some [Num 1, Num 0, Num 0]
   \<and> length [Num 1, Num 0, Num 0] \<noteq> length (unit_model ''q'')"
  by (simp add: eval_search unit_model_def card_long_def)




section \<open>Properties of the search on the store\<close>

lemma semanticSearch_store_Inl:
  assumes "semanticSearch getEmbedding query (read_cards s cards) threshold = Inl e"
  shows "semanticSearch_store getEmbedding query cards threshold s = (Inl e, s)"
  using assms by (auto simp: semanticSearch_def semanticSearch_store_def Let_def split: sum.splits)

lemma semanticSearch_store_Inr:
  assumes "semanticSearch getEmbedding query (read_cards s cards) threshold = Inr out"
  shows "fst (semanticSearch_store getEmbedding query cards threshold s) = Inr (Suc (Suc (next_ref s)))"
    and "card_arrays (snd (semanticSearch_store getEmbedding query cards threshold s)) =
           (card_arrays s)(Suc (Suc (next_ref s)) \<mapsto> out)"
    and "\<exists>rs fs. scored_arrays (snd (semanticSearch_store getEmbedding query cards threshold s)) =
           (scored_arrays s)(next_ref s \<mapsto> rs, Suc (next_ref s) \<mapsto> fs)"
    and "next_ref (snd (semanticSearch_store getEmbedding query cards threshold s)) =
           Suc (Suc (Suc (next_ref s)))"
  using assms
  by (auto simp: semanticSearch_def semanticSearch_store_def Let_def alloc_scored_def
      alloc_cards_def sort_scored_def read_scored_def split: sum.splits)

lemma semanticSearch_store_frame:
  assumes "store_ok s"
  shows "store_ok (snd (semanticSearch_store g query cards th s))
       \<and> (\<forall>a\<in>dom (card_arrays s). card_arrays (snd (semanticSearch_store g query cards th s)) a = card_arrays s a)
       \<and> (\<forall>a\<in>dom (scored_arrays s). scored_arrays (snd (semanticSearch_store g query cards th s)) a = scored_arrays s a)
       \<and> outcome (semanticSearch_store g query cards th s) = semanticSearch g query (read_cards s cards) th"
proof (cases "semanticSearch g query (read_cards s cards) th")
  case (Inl e)
  from semanticSearch_store_Inl [OF Inl] assms Inl show ?thesis
    by (simp add: outcome_def)
next
  case (Inr out)
  note facts = semanticSearch_store_Inr [OF Inr]
  from facts(3) obtain rs fs where
    sc: "scored_arrays (snd (semanticSearch_store g query cards th s)) =
           (scored_arrays s)(next_ref s \<mapsto> rs, Suc (next_ref s) \<mapsto> fs)" by blast
  have 1: "store_ok (snd (semanticSearch_store g query cards th s))"
    using assms by (auto simp: store_ok_def facts(2) facts(4) sc)
  have 2: "\<forall>a\<in>dom (card_arrays s). card_arrays (snd (semanticSearch_store g query cards th s)) a = card_arrays s a"
    using assms by (force simp: store_ok_def facts(2))
  have 3: "\<forall>a\<in>dom (scored_arrays s). scored_arrays (snd (semanticSearch_store g query cards th s)) a = scored_arrays s a"
    using assms by (force simp: store_ok_def sc)
  have 4: "outcome (semanticSearch_store g query cards th s) = semanticSearch g query (read_cards s cards) th"
  proof -
    have "read_cards (snd (semanticSearch_store g query cards th s)) (Suc (Suc (next_ref s))) = out"
      by (simp add: read_cards_def facts(2))
    then show ?thesis by (simp add: outcome_def facts(1) Inr)
  qed
  from 1 2 3 4 show ?thesis by blast
qed

text \<open>
  Claim C9. A call of \<^verbatim>\<open>semanticSearch\<close> leaves every array that existed before the call as it
  was, the candidate list among them; what it returns is determined by the model, the query,
  the contents of the candidate list and the threshold; and a second call with the same
  arguments returns the same cards.
\<close>

theorem semanticSearch_read_only:
  assumes "store_ok s"
  shows "(\<forall>a\<in>dom (card_arrays s).
            card_arrays (snd (semanticSearch_store getEmbedding query cards threshold s)) a = card_arrays s a)
       \<and> (\<forall>a\<in>dom (scored_arrays s).
            scored_arrays (snd (semanticSearch_store getEmbedding query cards threshold s)) a = scored_arrays s a)
       \<and> outcome (semanticSearch_store getEmbedding query cards threshold s) =
           semanticSearch getEmbedding query (read_cards s cards) threshold
       \<and> (cards \<in> dom (card_arrays s) \<longrightarrow>
            outcome (semanticSearch_store getEmbedding query cards threshold
                       (snd (semanticSearch_store getEmbedding query cards threshold s))) =
            outcome (semanticSearch_store getEmbedding query cards threshold s))"
proof -
  let ?s' = "snd (semanticSearch_store getEmbedding query cards threshold s)"
  note first = semanticSearch_store_frame [OF assms, of getEmbedding query cards threshold]
  then have ok: "store_ok ?s'" by simp
  note second = semanticSearch_store_frame [OF ok, of getEmbedding query cards threshold]
  have "read_cards ?s' cards = read_cards s cards" if "cards \<in> dom (card_arrays s)"
    using first that by (simp add: read_cards_def)
  with first second show ?thesis by simp
qed

theorem semanticSearch_read_only_witness:
  "store_ok store_0
   \<and> card_arrays (snd (semanticSearch_store unit_model ''q'' 0 (Num 0) store_0)) 0 =
       Some [card_3, card_2, card_1]
   \<and> outcome (semanticSearch_store unit_model ''q'' 0 (Num 0) store_0) = Inr [card_2, card_1]"
proof -
  have ok: "store_ok store_0" by (simp add: store_ok_def store_0_def)
  have s: "semanticSearch unit_model ''q'' [card_3, card_2, card_1] (Num 0) = Inr [card_2, card_1]"
    by (simp add: eval_search unit_model_def card_1_def card_2_def card_3_def)
  have r: "read_cards store_0 0 = [card_3, card_2, card_1]" by (simp add: read_cards_def store_0_def)
  have d: "0 \<in> dom (card_arrays store_0)" "card_arrays store_0 0 = Some [card_3, card_2, card_1]"
    by (simp_all add: store_0_def)
  from semanticSearch_read_only [OF ok, of unit_model "''q''" 0 "Num 0"] ok s r d
  show ?thesis by simp
qed

section \<open>Properties of the cache\<close>

text \<open>
  Claim C4, as the code has it. A hit needs an age strictly below the TTL. A get on an entry
  whose age is the TTL or more returns null and removes the entry; a get on an entry whose
  age is below the TTL returns the stored vector and leaves the cache as it was.
\<close>

theorem getCachedEmbedding_expiry:
  assumes "embeddingCache (hashText text) = Some e"
  shows "(ttl e * 1000 \<le> now - timestamp e \<longrightarrow>
            getCachedEmbedding hashText now text embeddingCache =
              (None, embeddingCache(hashText text := None)))
       \<and> (now - timestamp e < ttl e * 1000 \<longrightarrow>
            getCachedEmbedding hashText now text embeddingCache = (Some (embedding e), embeddingCache))"
  using assms by (simp add: getCachedEmbedding_def Let_def)

theorem getCachedEmbedding_expiry_witness:
  "cache_0 (plain_key ''k'') = Some entry_0
   \<and> getCachedEmbedding plain_key 2000 ''k'' cache_0 = (None, cache_0(''k'' := None))
   \<and> getCachedEmbedding plain_key 999 ''k'' cache_0 = (Some [Num 1, Num 0], cache_0)"
proof -
  have h: "cache_0 (plain_key ''k'') = Some entry_0"
    by (simp add: cache_0_def plain_key_def)
  from getCachedEmbedding_expiry [of cache_0 plain_key "''k''" entry_0 2000, OF h]
    getCachedEmbedding_expiry [of cache_0 plain_key "''k''" entry_0 999, OF h] h
  show ?thesis by (simp add: entry_0_def plain_key_def)
qed

text \<open>
  Claim C4 as stated fails on an entry whose age is exactly its TTL: the age does not exceed
  the TTL, and the get returns null and removes the entry.
\<close>

theorem getCachedEmbedding_boundary_counterexample:
  "cache_0 (plain_key ''k'') = Some entry_0
   \<and> \<not> (1000 - timestamp entry_0 > ttl entry_0 * 1000)
   \<and> fst (getCachedEmbedding plain_key 1000 ''k'' cache_0) = None
   \<and> snd (getCachedEmbedding plain_key 1000 ''k'' cache_0) (plain_key ''k'') = None"
  by (simp add: getCachedEmbedding_def Let_def cache_0_def entry_0_def plain_key_def)



text \<open>
  Claim C7, as the code has it. The cache has no bound and no eviction by use. A put adds or
  replaces the entry of its key and leaves every other entry in place, and a get changes no
  entry but the one of its key.
\<close>

theorem cacheEmbedding_evicts_nothing:
  "dom (cacheEmbedding hashText now text v embeddingCache) = insert (hashText text) (dom embeddingCache)
   \<and> (\<forall>k. k \<noteq> hashText text \<longrightarrow>
          cacheEmbedding hashText now text v embeddingCache k = embeddingCache k)
   \<and> (\<forall>k. k \<noteq> hashText text \<longrightarrow>
          snd (getCachedEmbedding hashText now text embeddingCache) k = embeddingCache k)"
  by (simp add: cacheEmbedding_def getCachedEmbedding_def Let_def split: option.splits)

theorem cacheEmbedding_evicts_nothing_witness:
  "dom (cacheEmbedding plain_key 5 ''a'' [Num 1] cache_0) = {''a'', ''k''}
   \<and> cacheEmbedding plain_key 5 ''a'' [Num 1] cache_0 ''k'' = Some entry_0
   \<and> snd (getCachedEmbedding plain_key 5 ''a'' cache_0) ''k'' = Some entry_0"
  using cacheEmbedding_evicts_nothing [of plain_key 5 "''a''" "[Num 1]" cache_0]
  by (simp add: plain_key_def cache_0_def)

text \<open>
  Claim C7 as stated fails for the bound 1: two puts of different keys leave two entries.
\<close>

theorem cacheEmbedding_unbounded_counterexample:
  "card (dom (cacheEmbedding plain_key 0 ''b'' [Num 1] (cacheEmbedding plain_key 0 ''a'' [Num 1] cache_empty))) = 2
   \<and> \<not> card (dom (cacheEmbedding plain_key 0 ''b'' [Num 1] (cacheEmbedding plain_key 0 ''a'' [Num 1] cache_empty))) \<le> 1"
  by (simp add: cacheEmbedding_def Let_def plain_key_def cache_empty_def)

section \<open>Properties of the interchange document\<close>

lemma strings_of_JStr: "strings_of (map JStr ts) = Some ts"
  by (induction ts) simp_all

lemma numbers_of_JNum: "numbers_of (map JNum v) = Some v"
  by (induction v) simp_all

lemma deserialize_embedding_serialize:
  "deserialize_embedding L (Some (serialize_embedding e)) = Inr (imported_embedding L e)"
  by (cases e) (simp_all add: serialize_embedding_def imported_embedding_def numbers_of_JNum)

lemma deserialize_card_record:
  "deserialize_embedding L e = Inr emb \<Longrightarrow>
   deserialize_card L (card_record c e) = Inr (c\<lparr>contentEmbedding := emb\<rparr>)"
  by (cases e) (simp_all add: card_record_def strings_of_JStr)

lemma deserialize_card_serialize:
  "deserialize_card L (serialize_card c) =
   Inr (c\<lparr>contentEmbedding := imported_embedding L (contentEmbedding c)\<rparr>)"
  by (simp add: serialize_card_def deserialize_card_record deserialize_embedding_serialize)

lemma deserialize_cards_map:
  "\<forall>c\<in>set cs. deserialize_card L (f c) = Inr (g c) \<Longrightarrow>
   deserialize_cards L (map f cs) = Inr (map g cs)"
  by (induction cs) simp_all

lemma deserialize_document:
  "deserialize_cards L records = Inr cs \<Longrightarrow> deserialize L (document d records) = Inr (d, cs)"
  by (simp add: document_def)

lemma deserialize_serialize:
  "deserialize L (serialize d cards) =
   Inr (d, map (\<lambda>c. c\<lparr>contentEmbedding := imported_embedding L (contentEmbedding c)\<rparr>) cards)"
  unfolding serialize_def
  by (rule deserialize_document, rule deserialize_cards_map) (simp add: deserialize_card_serialize)

lemma deserialize_cards_fail:
  "j \<in> set js \<Longrightarrow> deserialize_card L j = Inl e \<Longrightarrow> \<exists>e'. deserialize_cards L js = Inl e'"
  by (induction js) (auto split: sum.splits)

lemma imported_embedding_length:
  "imported_embedding L e = None \<or>
   (\<exists>v. imported_embedding L e = Some v \<and> length (vector_values v) = L)"
  by (cases e) (simp_all add: imported_embedding_def)

text \<open>
  Claim C3. Deserializing the document that serialize produces succeeds and gives back the
  deck with its name and description and the cards in the same order with the same id,
  title, content, tags and favorite mark; each card then has no embedding or one of the
  model's length.
\<close>

theorem round_trip:
  "\<exists>cards'. deserialize L (serialize d cards) = Inr (d, cards')
     \<and> map dc_id cards' = map dc_id cards
     \<and> map frontTitle cards' = map frontTitle cards
     \<and> map backContent cards' = map backContent cards
     \<and> map tags cards' = map tags cards
     \<and> map favorite cards' = map favorite cards
     \<and> (\<forall>c\<in>set cards'. contentEmbedding c = None \<or>
           (\<exists>v. contentEmbedding c = Some v \<and> length (vector_values v) = L))"
proof -
  let ?cards' = "map (\<lambda>c. c\<lparr>contentEmbedding := imported_embedding L (contentEmbedding c)\<rparr>) cards"
  have "deserialize L (serialize d cards) = Inr (d, ?cards')"
    by (rule deserialize_serialize)
  moreover have "\<forall>c\<in>set ?cards'. contentEmbedding c = None \<or>
           (\<exists>v. contentEmbedding c = Some v \<and> length (vector_values v) = L)"
    using imported_embedding_length by auto
  moreover have "map dc_id ?cards' = map dc_id cards" "map frontTitle ?cards' = map frontTitle cards"
    "map backContent ?cards' = map backContent cards" "map tags ?cards' = map tags cards"
    "map favorite ?cards' = map favorite cards"
    by simp_all
  ultimately show ?thesis by blast
qed

theorem round_trip_witness:
  "deserialize 2 (serialize deck_0 [dcard_a, dcard_b, dcard_c]) =
     Inr (deck_0, [dcard_a\<lparr>contentEmbedding := Some (TextVector [1, 0])\<rparr>, dcard_b,
                   dcard_c\<lparr>contentEmbedding := None\<rparr>])"
proof -
  from round_trip [of 2 deck_0 "[dcard_a, dcard_b, dcard_c]"] obtain cards' where
    "deserialize 2 (serialize deck_0 [dcard_a, dcard_b, dcard_c]) = Inr (deck_0, cards')" by blast
  moreover have "deserialize 2 (serialize deck_0 [dcard_a, dcard_b, dcard_c]) =
     Inr (deck_0, [dcard_a\<lparr>contentEmbedding := Some (TextVector [1, 0])\<rparr>, dcard_b,
                   dcard_c\<lparr>contentEmbedding := None\<rparr>])"
    by (simp add: deserialize_serialize imported_embedding_def dcard_a_def dcard_b_def dcard_c_def)
  ultimately show ?thesis by simp
qed

text \<open>
  Claim C5. In the document that serialize produces, the embedding member of each card
  record is null for a card without embedding and otherwise the array of the numbers of its
  vector, whichever representation the vector is stored in. A document whose card records
  have no embedding member, or a null one, is accepted, and its cards need re-embedding.
\<close>

theorem serialize_plain_embeddings:
  "map embedding_field (document_cards (serialize d cards)) =
     map (\<lambda>c. Some (case contentEmbedding c of
                       None \<Rightarrow> JNull
                     | Some v \<Rightarrow> JArr (map JNum (vector_values v)))) cards
   \<and> deserialize L (document d (map (\<lambda>c. card_record c None) cards)) =
       Inr (d, map (\<lambda>c. c\<lparr>contentEmbedding := None\<rparr>) cards)
   \<and> deserialize L (document d (map (\<lambda>c. card_record c (Some JNull)) cards)) =
       Inr (d, map (\<lambda>c. c\<lparr>contentEmbedding := None\<rparr>) cards)
   \<and> (\<forall>c\<in>set (map (\<lambda>c. c\<lparr>contentEmbedding := None\<rparr>) cards). needs_reembedding c)"
proof -
  have 1: "map embedding_field (document_cards (serialize d cards)) =
     map (\<lambda>c. Some (case contentEmbedding c of
                       None \<Rightarrow> JNull
                     | Some v \<Rightarrow> JArr (map JNum (vector_values v)))) cards"
    by (simp add: serialize_def document_def document_cards_def embedding_field_def
        serialize_card_def card_record_def serialize_embedding_def)
  have 2: "deserialize L (document d (map (\<lambda>c. card_record c e) cards)) =
       Inr (d, map (\<lambda>c. c\<lparr>contentEmbedding := None\<rparr>) cards)"
    if "deserialize_embedding L e = Inr None" for e
    by (rule deserialize_document, rule deserialize_cards_map)
      (simp add: deserialize_card_record [OF that])
  have 3: "\<forall>c\<in>set (map (\<lambda>c. c\<lparr>contentEmbedding := None\<rparr>) cards). needs_reembedding c"
    by (simp add: needs_reembedding_def)
  from 1 2 [of None] 2 [of "Some JNull"] 3 show ?thesis by simp
qed

theorem serialize_plain_embeddings_witness:
  "map embedding_field (document_cards (serialize deck_0 [dcard_a, dcard_b])) =
     [Some (JArr [JNum 1, JNum 0]), Some JNull]
   \<and> deserialize 2 (document deck_0 [card_record dcard_a None]) =
       Inr (deck_0, [dcard_a\<lparr>contentEmbedding := None\<rparr>])
   \<and> needs_reembedding (dcard_a\<lparr>contentEmbedding := None\<rparr>)"
  using serialize_plain_embeddings [of deck_0 "[dcard_a, dcard_b]" 2]
    serialize_plain_embeddings [of deck_0 "[dcard_a]" 2]
  by (simp add: dcard_a_def dcard_b_def)

text \<open>
  Claim C8. Import of a document that fails validation returns \<open>MalformedDocument\<close> and
  the local store it was given; so does import of a document with a card record that fails
  validation, whatever the other records are.
\<close>

theorem import_atomic:
  "(deserialize L doc = Inl e \<longrightarrow>
      import_document L deckId doc local = (Inl MalformedDocument, local))
   \<and> (j \<in> set records \<and> deserialize_card L j = Inl e \<longrightarrow>
      import_document L deckId (document d records) local = (Inl MalformedDocument, local))"
proof -
  have "deserialize L (document d records) = Inl MalformedDocument"
    if "j \<in> set records" "deserialize_card L j = Inl e"
  proof -
    from deserialize_cards_fail [OF that] obtain e' where "deserialize_cards L records = Inl e'"
      by blast
    then show ?thesis by (cases e') (simp add: document_def)
  qed
  then show ?thesis by (auto simp: import_document_def)
qed

theorem import_atomic_witness:
  "deserialize_card 2 (serialize_card dcard_a) = Inr (dcard_a\<lparr>contentEmbedding := Some (TextVector [1, 0])\<rparr>)
   \<and> deserialize_card 2 bad_record = Inl MalformedDocument
   \<and> import_document 2 ''deck-1'' (document deck_0 [serialize_card dcard_a, bad_record]) local_0 =
       (Inl MalformedDocument, local_0)
   \<and> import_document 2 ''deck-1'' (JArr []) local_0 = (Inl MalformedDocument, local_0)"
proof -
  have a: "deserialize_card 2 (serialize_card dcard_a) =
           Inr (dcard_a\<lparr>contentEmbedding := Some (TextVector [1, 0])\<rparr>)"
    by (simp add: deserialize_card_serialize imported_embedding_def dcard_a_def)
  have b: "deserialize_card 2 bad_record = Inl MalformedDocument"
    by (simp add: bad_record_def)
  have m: "bad_record \<in> set [serialize_card dcard_a, bad_record]" by simp
  have c: "deserialize 2 (JArr []) = Inl MalformedDocument" by simp
  from import_atomic [of 2 "JArr []" MalformedDocument "''deck-1''" local_0 bad_record
      "[serialize_card dcard_a, bad_record]" deck_0]
    a b c m
  show ?thesis by blast
qed

end
